theory Spec2Isabelle
  imports Complex_Main "HOL-Library.Sublist"
begin

section \<open>Data model of follower\_automation.py\<close>

text \<open>
  The program reads JSON objects returned by the remote API. Of a JSON value it only ever
  inspects strings (\<open>login\<close>, \<open>type\<close>), integers (\<open>followers\<close>) and the absent value
  \<open>None\<close>; these are the three shapes modelled. A JSON object (a Python dict) is an
  association list read through \<open>map_of\<close>; the empty dict is the empty list, which is what
  Python's truth test on a dict looks at.
\<close>

datatype json = JNull | JInt int | JStr string

type_synonym user_data = "(string \<times> json) list"

text \<open>The exceptions that the modelled code can raise by itself.\<close>

datatype py_error = KeyError | TypeError | AttributeError | ValueError | ZeroDivisionError

text \<open>\<open>d.get(k, default)\<close> and \<open>d[k]\<close>.\<close>

definition dict_get :: "user_data \<Rightarrow> string \<Rightarrow> json \<Rightarrow> json" where
  "dict_get d k dflt = (case map_of d k of None \<Rightarrow> dflt | Some v \<Rightarrow> v)"

definition subscript :: "user_data \<Rightarrow> string \<Rightarrow> py_error + json" where
  "subscript d k = (case map_of d k of None \<Rightarrow> Inl KeyError | Some v \<Rightarrow> Inr v)"

text \<open>\<open>v > n\<close> for an integer literal \<open>n\<close>: ordering a string or \<open>None\<close> against an
  integer raises TypeError.\<close>

fun py_gt :: "json \<Rightarrow> int \<Rightarrow> py_error + bool" where
  "py_gt (JInt m) n = Inr (m > n)"
| "py_gt (JStr s) n = Inl TypeError"
| "py_gt JNull n = Inl TypeError"

text \<open>\<open>str.lower\<close> on the ASCII range (logins of the platform are ASCII); any other
  value has no method \<open>lower\<close>.\<close>

fun lower_char :: "char \<Rightarrow> char" where
  "lower_char (Char b0 b1 b2 b3 b4 b5 b6 b7) =
     (let n = (of_char (Char b0 b1 b2 b3 b4 b5 b6 b7) :: nat)
      in if 65 \<le> n \<and> n \<le> 90 then Char b0 b1 b2 b3 b4 True b6 b7
         else Char b0 b1 b2 b3 b4 b5 b6 b7)"

fun py_lower :: "json \<Rightarrow> py_error + string" where
  "py_lower (JStr s) = Inr (map lower_char s)"
| "py_lower (JInt n) = Inl AttributeError"
| "py_lower JNull = Inl AttributeError"

text \<open>\<open>sub in s\<close> on strings: \<open>sub\<close> occurs as a contiguous piece of \<open>s\<close>.\<close>

fun py_in :: "string \<Rightarrow> string \<Rightarrow> bool" where
  "py_in sub [] = (sub = [])"
| "py_in sub (c # cs) = (prefix sub (c # cs) \<or> py_in sub cs)"

section \<open>The safety filter\<close>

text \<open>
  \<open>should_skip_user\<close>, lines 162--176. The two log lines are modelled only as far as they
  can raise: they read \<open>user_data['login']\<close> and \<open>user_data['followers']\<close> by subscript
  while the message is built, before \<open>return True\<close>.
\<close>

definition should_skip_user :: "user_data \<Rightarrow> py_error + bool" where
  "should_skip_user user_data =
     (case py_gt (dict_get user_data ''followers'' (JInt 0)) 10000 of
        Inl e \<Rightarrow> Inl e
      | Inr True \<Rightarrow>
          (case subscript user_data ''login'' of
             Inl e \<Rightarrow> Inl e
           | Inr _ \<Rightarrow>
               (case subscript user_data ''followers'' of
                  Inl e \<Rightarrow> Inl e
                | Inr _ \<Rightarrow> Inr True))
      | Inr False \<Rightarrow>
          (if dict_get user_data ''type'' JNull = JStr ''Organization'' then
             (case py_lower (dict_get user_data ''login'' (JStr '''')) of
                Inl e \<Rightarrow> Inl e
              | Inr s \<Rightarrow>
                  (if py_in ''github'' s then
                     (case subscript user_data ''login'' of
                        Inl e \<Rightarrow> Inl e
                      | Inr _ \<Rightarrow> Inr True)
                   else Inr False))
           else Inr False))"

text \<open>The cached-profile lookup of the cleanup phase, line 253:
  \<open>following_info.get(username, {})\<close>.\<close>

definition cached_info :: "(json \<rightharpoonup> user_data) \<Rightarrow> json \<Rightarrow> user_data" where
  "cached_info following_info username =
     (case following_info username of None \<Rightarrow> [] | Some u \<Rightarrow> u)"

section \<open>The remote API\<close>

text \<open>
  The HTTP transport is an external collaborator. A response is its status code and its
  decoded JSON body. Within one call of a method below no request is issued twice (each
  page number once, each candidate once), so the remote service is modelled by the
  response it gives to each request.
\<close>

datatype 'a response = Response (status_code: nat) (json_body: 'a)

datatype endpoint = Followers | Following

record api =
  list_page :: "endpoint \<Rightarrow> nat \<Rightarrow> user_data list response"
  user_page :: "json \<Rightarrow> user_data response"
  put_following :: "json \<Rightarrow> nat"
  delete_following :: "json \<Rightarrow> nat"

text \<open>The calls a method makes, in the order it makes them.\<close>

datatype event =
    GetPage endpoint nat
  | GetUserInfo json
  | ShouldSkip user_data
  | FollowUser json
  | UnfollowUser json
  | Sleep int

section \<open>The set collector\<close>

text \<open>
  \<open>get_followers\<close> (lines 44--76) and \<open>get_following\<close> (lines 78--110) are the same loop
  up to the URL: \<open>while True\<close>, fetch the page, on status 200 stop at an empty page or
  extend the list, increment the page and sleep one second; on any other status log and
  \<open>break\<close>. In both exits the list gathered so far is returned. The loop has no other
  exit, so it is a partial function: \<open>None\<close> is "does not return".
\<close>

partial_function (option) fetch_pages ::
  "(nat \<Rightarrow> user_data list response) \<Rightarrow> endpoint \<Rightarrow> nat \<Rightarrow> user_data list \<Rightarrow> event list
     \<Rightarrow> (user_data list \<times> event list) option" where
  "fetch_pages pages ep page acc tr =
     (if status_code (pages page) = 200 then
        (if json_body (pages page) = [] then Some (acc, tr @ [GetPage ep page])
         else fetch_pages pages ep (Suc page) (acc @ json_body (pages page))
                (tr @ [GetPage ep page, Sleep 1]))
      else Some (acc, tr @ [GetPage ep page]))"

definition get_followers :: "api \<Rightarrow> (user_data list \<times> event list) option" where
  "get_followers a = fetch_pages (list_page a Followers) Followers 1 [] []"

definition get_following :: "api \<Rightarrow> (user_data list \<times> event list) option" where
  "get_following a = fetch_pages (list_page a Following) Following 1 [] []"

text \<open>A page ends the loop when it is not a success, or is an empty success.\<close>

definition stops :: "user_data list response \<Rightarrow> bool" where
  "stops r = (status_code r \<noteq> 200 \<or> json_body r = [])"

fun fetches :: "event list \<Rightarrow> nat list" where
  "fetches [] = []"
| "fetches (GetPage ep n # tr) = n # fetches tr"
| "fetches (e # tr) = fetches tr"

section \<open>Single-entity requests\<close>

text \<open>\<open>get_user_info\<close> (lines 152--160), \<open>follow_user\<close> (112--126) and
  \<open>unfollow_user\<close> (128--142).\<close>

definition get_user_info :: "api \<Rightarrow> json \<Rightarrow> user_data option" where
  "get_user_info a username =
     (if status_code (user_page a username) = 200 then Some (json_body (user_page a username))
      else None)"

definition follow_user :: "api \<Rightarrow> json \<Rightarrow> bool" where
  "follow_user a username = (put_following a username = 204)"

definition unfollow_user :: "api \<Rightarrow> json \<Rightarrow> bool" where
  "unfollow_user a username = (delete_following a username = 204)"

section \<open>Reconciliation\<close>

text \<open>The set comprehension \<open>{user['login'] for user in users}\<close>; a listing entry
  without \<open>login\<close> raises KeyError.\<close>

fun usernames :: "user_data list \<Rightarrow> py_error + json set" where
  "usernames [] = Inr {}"
| "usernames (user # users) =
     (case subscript user ''login'' of
        Inl e \<Rightarrow> Inl e
      | Inr l \<Rightarrow> (case usernames users of Inl e \<Rightarrow> Inl e | Inr s \<Rightarrow> Inr (insert l s)))"

text \<open>Line 190, line 231, and lines 273--275.\<close>

definition to_follow_back :: "json set \<Rightarrow> json set \<Rightarrow> json set" where
  "to_follow_back follower_usernames following_usernames =
     follower_usernames - following_usernames"

definition non_followers :: "json set \<Rightarrow> json set \<Rightarrow> json set" where
  "non_followers follower_usernames following_usernames =
     following_usernames - follower_usernames"

definition mutual_follows :: "json set \<Rightarrow> json set \<Rightarrow> json set" where
  "mutual_follows follower_usernames following_usernames =
     follower_usernames \<inter> following_usernames"

text \<open>The dict comprehension of line 243, \<open>{user['login']: user for user in following}\<close>:
  a later entry replaces an earlier one with the same login.\<close>

fun following_info_of :: "user_data list \<Rightarrow> (json \<rightharpoonup> user_data) \<Rightarrow> py_error + (json \<rightharpoonup> user_data)" where
  "following_info_of [] m = Inr m"
| "following_info_of (user # users) m =
     (case subscript user ''login'' of
        Inl e \<Rightarrow> Inl e
      | Inr l \<Rightarrow> following_info_of users (m(l \<mapsto> user)))"

section \<open>The bounded action loops\<close>

text \<open>
  \<open>xs[:cap]\<close> for a Python integer \<open>cap\<close>: a negative bound counts from the end.
\<close>

definition slice_to :: "'a list \<Rightarrow> int \<Rightarrow> 'a list" where
  "slice_to xs cap =
     (if 0 \<le> cap then take (nat cap) xs else take (nat (int (length xs) + cap)) xs)"

text \<open>
  What a loop leaves behind: the tally, the calls made, and the exception that ended it
  if one did. \<open>time.sleep\<close> raises ValueError on a negative length.
\<close>

record run =
  tally :: int
  calls :: "event list"
  raised :: "py_error option"

definition after :: "event list \<Rightarrow> run \<Rightarrow> run" where
  "after evs r = r\<lparr>calls := evs @ calls r\<rparr>"

definition stop_with :: "int \<Rightarrow> event list \<Rightarrow> py_error option \<Rightarrow> run" where
  "stop_with n evs e = \<lparr>tally = n, calls = evs, raised = e\<rparr>"

text \<open>
  The body of the loop of \<open>follow_back_followers\<close>, lines 203--215. The test
  \<open>user_info and ...\<close> is false for \<open>None\<close> and for an empty dict, and then the filter is
  not called.
\<close>

fun follow_loop :: "api \<Rightarrow> int \<Rightarrow> int \<Rightarrow> json list \<Rightarrow> int \<Rightarrow> run" where
  "follow_loop a cap delay [] followed_count = stop_with followed_count [] None"
| "follow_loop a cap delay (username # rest) followed_count =
     (if followed_count \<ge> cap then stop_with followed_count [] None
      else
        (case (case get_user_info a username of
                 None \<Rightarrow> ([GetUserInfo username], Inr False)
               | Some user_info \<Rightarrow>
                   if user_info = [] then ([GetUserInfo username], Inr False)
                   else ([GetUserInfo username, ShouldSkip user_info],
                         should_skip_user user_info)) of
           (evs, Inl e) \<Rightarrow> stop_with followed_count evs (Some e)
         | (evs, Inr True) \<Rightarrow> after evs (follow_loop a cap delay rest followed_count)
         | (evs, Inr False) \<Rightarrow>
             if follow_user a username then
               (if delay < 0 then
                  stop_with (followed_count + 1)
                    (evs @ [FollowUser username, Sleep delay]) (Some ValueError)
                else after (evs @ [FollowUser username, Sleep delay])
                       (follow_loop a cap delay rest (followed_count + 1)))
             else after (evs @ [FollowUser username])
                    (follow_loop a cap delay rest followed_count)))"

text \<open>The loop of \<open>cleanup_non_followers\<close>, lines 247--259: the filter is applied to the
  entry of the listing cached in \<open>following_info\<close>.\<close>

fun unfollow_loop ::
  "api \<Rightarrow> (json \<rightharpoonup> user_data) \<Rightarrow> int \<Rightarrow> int \<Rightarrow> json list \<Rightarrow> int \<Rightarrow> run" where
  "unfollow_loop a following_info cap delay [] unfollowed_count =
     stop_with unfollowed_count [] None"
| "unfollow_loop a following_info cap delay (username # rest) unfollowed_count =
     (if unfollowed_count \<ge> cap then stop_with unfollowed_count [] None
      else
        (case should_skip_user (cached_info following_info username) of
           Inl e \<Rightarrow>
             stop_with unfollowed_count [ShouldSkip (cached_info following_info username)]
               (Some e)
         | Inr True \<Rightarrow>
             after [ShouldSkip (cached_info following_info username)]
               (unfollow_loop a following_info cap delay rest unfollowed_count)
         | Inr False \<Rightarrow>
             if unfollow_user a username then
               (if delay < 0 then
                  stop_with (unfollowed_count + 1)
                    [ShouldSkip (cached_info following_info username),
                     UnfollowUser username, Sleep delay] (Some ValueError)
                else after [ShouldSkip (cached_info following_info username),
                            UnfollowUser username, Sleep delay]
                       (unfollow_loop a following_info cap delay rest (unfollowed_count + 1)))
             else after [ShouldSkip (cached_info following_info username),
                         UnfollowUser username]
                    (unfollow_loop a following_info cap delay rest unfollowed_count)))"

text \<open>
  Lines 202--215 and 246--259 as a whole: the candidates are \<open>list(to_follow_back)\<close>
  (respectively \<open>list(non_followers)\<close>), sliced at the cap, and the tally starts at 0.
\<close>

definition follow_candidates :: "api \<Rightarrow> int \<Rightarrow> int \<Rightarrow> json list \<Rightarrow> run" where
  "follow_candidates a max_follows_per_run delay candidates =
     follow_loop a max_follows_per_run delay (slice_to candidates max_follows_per_run) 0"

definition unfollow_candidates ::
  "api \<Rightarrow> (json \<rightharpoonup> user_data) \<Rightarrow> int \<Rightarrow> int \<Rightarrow> json list \<Rightarrow> run" where
  "unfollow_candidates a following_info max_unfollows_per_run delay candidates =
     unfollow_loop a following_info max_unfollows_per_run delay
       (slice_to candidates max_unfollows_per_run) 0"

text \<open>Reading a trace.\<close>

fun looked_up :: "event list \<Rightarrow> json list" where
  "looked_up [] = []"
| "looked_up (GetUserInfo u # tr) = u # looked_up tr"
| "looked_up (e # tr) = looked_up tr"

fun filtered :: "event list \<Rightarrow> user_data list" where
  "filtered [] = []"
| "filtered (ShouldSkip d # tr) = d # filtered tr"
| "filtered (e # tr) = filtered tr"

section \<open>The two phases and the statistics\<close>

text \<open>
  \<open>list(s)\<close> on a Python set enumerates its elements once each, in the order of the
  interpreter's hash table. The source fixes no order of its own, so the enumeration is a
  parameter \<open>to_list\<close> of the phases.

  \<open>follow_back_followers\<close>, lines 178--217, and \<open>cleanup_non_followers\<close>, lines 219--261.
  A phase does not return if a collection does not; it ends early, before any candidate,
  on a KeyError of a comprehension or on an empty difference (the tally is then reported
  as 0).
\<close>

definition follow_back_followers ::
  "api \<Rightarrow> (json set \<Rightarrow> json list) \<Rightarrow> int \<Rightarrow> int \<Rightarrow> run option" where
  "follow_back_followers a to_list max_follows_per_run delay_between_actions =
     (case get_followers a of
        None \<Rightarrow> None
      | Some (followers, t1) \<Rightarrow>
          (case get_following a of
             None \<Rightarrow> None
           | Some (following, t2) \<Rightarrow>
               Some
                 (case usernames followers of
                    Inl e \<Rightarrow> stop_with 0 (t1 @ t2) (Some e)
                  | Inr follower_usernames \<Rightarrow>
                      (case usernames following of
                         Inl e \<Rightarrow> stop_with 0 (t1 @ t2) (Some e)
                       | Inr following_usernames \<Rightarrow>
                           if to_follow_back follower_usernames following_usernames = {}
                           then stop_with 0 (t1 @ t2) None
                           else after (t1 @ t2)
                                  (follow_candidates a max_follows_per_run
                                     delay_between_actions
                                     (to_list (to_follow_back follower_usernames
                                                 following_usernames)))))))"

definition cleanup_non_followers ::
  "api \<Rightarrow> (json set \<Rightarrow> json list) \<Rightarrow> int \<Rightarrow> int \<Rightarrow> run option" where
  "cleanup_non_followers a to_list max_unfollows_per_run delay_between_actions =
     (case get_followers a of
        None \<Rightarrow> None
      | Some (followers, t1) \<Rightarrow>
          (case get_following a of
             None \<Rightarrow> None
           | Some (following, t2) \<Rightarrow>
               Some
                 (case usernames followers of
                    Inl e \<Rightarrow> stop_with 0 (t1 @ t2) (Some e)
                  | Inr follower_usernames \<Rightarrow>
                      (case usernames following of
                         Inl e \<Rightarrow> stop_with 0 (t1 @ t2) (Some e)
                       | Inr following_usernames \<Rightarrow>
                           if non_followers follower_usernames following_usernames = {}
                           then stop_with 0 (t1 @ t2) None
                           else
                             (case following_info_of following Map.empty of
                                Inl e \<Rightarrow> stop_with 0 (t1 @ t2) (Some e)
                              | Inr following_info \<Rightarrow>
                                  after (t1 @ t2)
                                    (unfollow_candidates a following_info
                                       max_unfollows_per_run delay_between_actions
                                       (to_list (non_followers follower_usernames
                                                   following_usernames))))))))"

text \<open>
  \<open>get_statistics\<close>, lines 263--294. \<open>/\<close> is Python's true division, which raises
  ZeroDivisionError on a zero divisor; its result is taken as the exact quotient.
\<close>

record stats =
  followers_count :: nat
  following_count :: nat
  mutual_follows_count :: nat
  only_followers :: nat
  only_following :: nat
  follow_ratio :: real

definition py_truediv :: "int \<Rightarrow> int \<Rightarrow> py_error + real" where
  "py_truediv x y = (if y = 0 then Inl ZeroDivisionError else Inr (real_of_int x / real_of_int y))"

definition statistics :: "user_data list \<Rightarrow> user_data list \<Rightarrow> py_error + stats" where
  "statistics followers following =
     (case usernames followers of
        Inl e \<Rightarrow> Inl e
      | Inr follower_usernames \<Rightarrow>
          (case usernames following of
             Inl e \<Rightarrow> Inl e
           | Inr following_usernames \<Rightarrow>
               (case py_truediv (int (length followers)) (max (int (length following)) 1) of
                  Inl e \<Rightarrow> Inl e
                | Inr ratio \<Rightarrow>
                    Inr \<lparr>followers_count = length followers,
                         following_count = length following,
                         mutual_follows_count =
                           card (mutual_follows follower_usernames following_usernames),
                         only_followers =
                           card (to_follow_back follower_usernames following_usernames),
                         only_following =
                           card (non_followers follower_usernames following_usernames),
                         follow_ratio = ratio\<rparr>)))"

definition get_statistics :: "api \<Rightarrow> ((py_error + stats) \<times> event list) option" where
  "get_statistics a =
     (case get_followers a of
        None \<Rightarrow> None
      | Some (followers, t1) \<Rightarrow>
          (case get_following a of
             None \<Rightarrow> None
           | Some (following, t2) \<Rightarrow> Some (statistics followers following, t1 @ t2)))"

section \<open>Sample remote services\<close>

definition entry :: "string \<Rightarrow> user_data" where
  "entry l = [(''login'', JStr l)]"

text \<open>One follower \<open>alice\<close> whose profile lookup answers 404, one follower \<open>bigstar\<close> with
  20000 followers, and one followed organisation \<open>GitHub-Docs\<close> that does not follow
  back. Every mutation succeeds.\<close>

definition sample_api :: api where
  "sample_api =
     \<lparr>list_page = (\<lambda>ep page.
        if page = 1 then
          (case ep of
             Followers \<Rightarrow> Response 200 [entry ''alice'', entry ''bigstar'']
           | Following \<Rightarrow>
               Response 200 [[(''login'', JStr ''GitHub-Docs''), (''type'', JStr ''Organization'')]])
        else Response 200 []),
      user_page = (\<lambda>u.
        if u = JStr ''bigstar''
        then Response 200 [(''login'', JStr ''bigstar''), (''followers'', JInt 20000)]
        else Response 404 []),
      put_following = (\<lambda>u. 204),
      delete_following = (\<lambda>u. 204)\<rparr>"

text \<open>A listing that never runs dry, and one whose second page fails.\<close>

definition endless_api :: api where
  "endless_api = sample_api\<lparr>list_page := (\<lambda>ep page. Response 200 [entry ''alice''])\<rparr>"

definition failing_api :: api where
  "failing_api =
     sample_api\<lparr>list_page := (\<lambda>ep page.
        if page = 1 then Response 200 [entry ''alice''] else Response 500 [])\<rparr>"

text \<open>The same service with the response to one page request replaced.\<close>

definition with_page :: "api \<Rightarrow> endpoint \<Rightarrow> nat \<Rightarrow> user_data list response \<Rightarrow> api" where
  "with_page a ep k r =
     a\<lparr>list_page := (\<lambda>ep' page. if ep' = ep \<and> page = k then r else list_page a ep' page)\<rparr>"

text \<open>The collection of one endpoint.\<close>

definition get_listing :: "api \<Rightarrow> endpoint \<Rightarrow> (user_data list \<times> event list) option" where
  "get_listing a ep = (case ep of Followers \<Rightarrow> get_followers a | Following \<Rightarrow> get_following a)"

text \<open>An enumeration of the two candidate sets of \<open>sample_api\<close>, and the listing cache of
  its cleanup phase.\<close>

definition sample_to_list :: "json set \<Rightarrow> json list" where
  "sample_to_list s =
     (if JStr ''alice'' \<in> s then [JStr ''alice'', JStr ''bigstar''] else [JStr ''GitHub-Docs''])"

definition sample_info :: "json \<rightharpoonup> user_data" where
  "sample_info =
     [JStr ''GitHub-Docs'' \<mapsto> [(''login'', JStr ''GitHub-Docs''), (''type'', JStr ''Organization'')]]"

text \<open>A service whose profile lookups all answer 200 with an empty object, and a listing
  cache with two entries.\<close>

definition empty_profile_api :: api where
  "empty_profile_api = sample_api\<lparr>user_page := (\<lambda>u. Response 200 [])\<rparr>"


section \<open>Checks on a trace\<close>

text \<open>Every profile lookup that returns no profile, or an empty one, is directly followed
  by the follow call for the same candidate, and that call, when it succeeds, by the
  pause.\<close>

fun failed_lookup_followed :: "api \<Rightarrow> int \<Rightarrow> event list \<Rightarrow> bool" where
  "failed_lookup_followed a delay [] = True"
| "failed_lookup_followed a delay (GetUserInfo u # tr) =
     ((get_user_info a u = None \<or> get_user_info a u = Some [] \<longrightarrow>
         take 1 tr = [FollowUser u] \<and>
         (follow_user a u \<longrightarrow> take 2 tr = [FollowUser u, Sleep delay]))
      \<and> failed_lookup_followed a delay tr)"
| "failed_lookup_followed a delay (e # tr) = failed_lookup_followed a delay tr"



section \<open>Properties of the safety filter\<close>

lemma py_in_sublist: "py_in sub s = sublist sub s"
  by (induction s) (auto simp: sublist_Cons_right)

lemma py_in_decompose: "py_in sub s = (\<exists>pre post. s = pre @ sub @ post)"
  by (simp add: py_in_sublist sublist_def)

text \<open>
  C5. For a profile that carries an identifier (a string under \<open>login\<close>) and an integer
  follower count \<open>n\<close>, the filter returns without raising, and it answers "skip" exactly
  when \<open>n > 10000\<close>, or the account type is \<open>Organization\<close> and the lower-cased identifier
  contains \<open>github\<close>. So a count of 10001 is always skipped, a count of 10000 is skipped
  only by the organisation rule, and no other profile is skipped.
\<close>

theorem should_skip_user_policy:
  assumes "map_of p ''login'' = Some (JStr l)"
    and "map_of p ''followers'' = Some (JInt n)"
  shows "should_skip_user p =
           Inr (n > 10000 \<or>
                (map_of p ''type'' = Some (JStr ''Organization'') \<and>
                 (\<exists>pre post. map lower_char l = pre @ ''github'' @ post)))"
proof -
  have ty: "(dict_get p ''type'' JNull = JStr ''Organization'') =
            (map_of p ''type'' = Some (JStr ''Organization''))"
    by (cases "map_of p ''type''") (simp_all add: dict_get_def)
  have lg: "dict_get p ''login'' (JStr '''') = JStr l"
    using assms(1) by (simp add: dict_get_def)
  have fo: "dict_get p ''followers'' (JInt 0) = JInt n"
    using assms(2) by (simp add: dict_get_def)
  have sl: "subscript p ''login'' = Inr (JStr l)"
    using assms(1) by (simp add: subscript_def)
  have sf: "subscript p ''followers'' = Inr (JInt n)"
    using assms(2) by (simp add: subscript_def)
  have "should_skip_user p =
          Inr (n > 10000 \<or>
               (map_of p ''type'' = Some (JStr ''Organization'') \<and>
                py_in ''github'' (map lower_char l)))"
    unfolding should_skip_user_def ty lg fo sl sf by (cases "10000 < n") simp_all
  then show ?thesis
    unfolding py_in_decompose .
qed

theorem should_skip_user_policy_witness:
  "should_skip_user [(''login'', JStr ''octo''), (''followers'', JInt 10001)] = Inr True
   \<and> should_skip_user [(''login'', JStr ''octo''), (''followers'', JInt 10000)] = Inr False
   \<and> should_skip_user [(''login'', JStr ''GitHub-Team''), (''followers'', JInt 10000),
        (''type'', JStr ''Organization'')] = Inr True"
proof -
  have a: "should_skip_user [(''login'', JStr ''octo''), (''followers'', JInt 10001)] = Inr True"
    using should_skip_user_policy
      [of "[(''login'', JStr ''octo''), (''followers'', JInt 10001)]" "''octo''" 10001]
    by simp
  have b: "should_skip_user [(''login'', JStr ''octo''), (''followers'', JInt 10000)] = Inr False"
    using should_skip_user_policy
      [of "[(''login'', JStr ''octo''), (''followers'', JInt 10000)]" "''octo''" 10000]
    by simp
  have c: "should_skip_user [(''login'', JStr ''GitHub-Team''), (''followers'', JInt 10000),
        (''type'', JStr ''Organization'')] = Inr True"
    by (simp add: should_skip_user_def dict_get_def subscript_def)
  from a b c show ?thesis by simp
qed

section \<open>Properties of the action loops\<close>

lemma run_simps [simp]:
  "calls (after evs r) = evs @ calls r"
  "raised (after evs r) = raised r"
  "tally (after evs r) = tally r"
  "calls (stop_with n evs e) = evs"
  "raised (stop_with n evs e) = e"
  "tally (stop_with n evs e) = n"
  by (simp_all add: after_def stop_with_def)

lemma looked_up_append [simp]: "looked_up (xs @ ys) = looked_up xs @ looked_up ys"
  by (induction xs rule: looked_up.induct) simp_all

lemma filtered_append [simp]: "filtered (xs @ ys) = filtered xs @ filtered ys"
  by (induction xs rule: filtered.induct) simp_all






lemma sample_lookups:
  "get_user_info sample_api (JStr ''alice'') = None"
  "get_user_info sample_api (JStr ''bigstar'') =
     Some [(''login'', JStr ''bigstar''), (''followers'', JInt 20000)]"
  "follow_user sample_api u"
  "unfollow_user sample_api u"
  by (simp_all add: get_user_info_def follow_user_def unfollow_user_def sample_api_def)

lemma sample_filter:
  "should_skip_user [(''login'', JStr ''bigstar''), (''followers'', JInt 20000)] = Inr True"
  "should_skip_user [(''login'', JStr ''GitHub-Docs''), (''type'', JStr ''Organization'')] = Inr True"
  "should_skip_user [] = Inr False"
  by (simp_all add: should_skip_user_def dict_get_def subscript_def)

lemma sample_follow_run:
  "follow_candidates sample_api 15 5 [JStr ''alice'', JStr ''bigstar''] =
     \<lparr>tally = 1,
      calls = [GetUserInfo (JStr ''alice''), FollowUser (JStr ''alice''), Sleep 5,
               GetUserInfo (JStr ''bigstar''),
               ShouldSkip [(''login'', JStr ''bigstar''), (''followers'', JInt 20000)]],
      raised = None\<rparr>"
  by (simp add: follow_candidates_def slice_to_def sample_lookups sample_filter
      after_def stop_with_def)

lemma failed_lookup_followedD:
  "failed_lookup_followed a delay tr \<Longrightarrow> tr = pre @ GetUserInfo u # post \<Longrightarrow>
   get_user_info a u = None \<or> get_user_info a u = Some [] \<Longrightarrow>
   take 1 post = [FollowUser u] \<and>
   (follow_user a u \<longrightarrow> take 2 post = [FollowUser u, Sleep delay])"
proof (induction pre arbitrary: tr)
  case Nil
  then show ?case by simp
next
  case (Cons e pre)
  then have "failed_lookup_followed a delay (pre @ GetUserInfo u # post)"
    by (cases e) auto
  from Cons.IH [OF this refl Cons.prems(3)] show ?case .
qed

lemma follow_loop_failed_lookup:
  "failed_lookup_followed a delay (calls (follow_loop a cap delay us followed_count))"
proof (induction us arbitrary: followed_count)
  case Nil
  then show ?case by simp
next
  case (Cons u us)
  show ?case
    using Cons.IH [of followed_count] Cons.IH [of "followed_count + 1"]
    by (auto split: option.splits sum.splits bool.splits)
qed














section \<open>Properties of the set collector\<close>

lemma fetches_append [simp]: "fetches (xs @ ys) = fetches xs @ fetches ys"
  by (induction xs rule: fetches.induct) simp_all

text \<open>If the first page from \<open>page\<close> on that ends the loop is page \<open>k\<close>, the loop returns
  the concatenation of the pages before \<open>k\<close> after fetching pages \<open>page, ..., k\<close>.\<close>

lemma fetch_pages_run:
  "page \<le> k \<Longrightarrow> stops (pages k) \<Longrightarrow> (\<forall>j. page \<le> j \<and> j < k \<longrightarrow> \<not> stops (pages j)) \<Longrightarrow>
   \<exists>t. fetch_pages pages ep page acc tr =
         Some (acc @ concat (map (\<lambda>j. json_body (pages j)) [page..<k]), t) \<and>
       fetches t = fetches tr @ [page..<Suc k]"
proof (induction "k - page" arbitrary: page acc tr)
  case 0
  then have "page = k" by simp
  with 0 show ?case
    by (subst fetch_pages.simps) (auto simp: stops_def)
next
  case (Suc n)
  then have lt: "page < k" and ns: "\<not> stops (pages page)" by auto
  have n: "n = k - Suc page" using Suc.hyps(2) by simp
  have le: "Suc page \<le> k" using lt by simp
  have rest: "\<forall>j. Suc page \<le> j \<and> j < k \<longrightarrow> \<not> stops (pages j)"
    using Suc.prems(3) by auto
  obtain t where t:
    "fetch_pages pages ep (Suc page) (acc @ json_body (pages page))
        (tr @ [GetPage ep page, Sleep 1]) =
       Some ((acc @ json_body (pages page)) @
             concat (map (\<lambda>j. json_body (pages j)) [Suc page..<k]), t)"
    "fetches t = fetches (tr @ [GetPage ep page, Sleep 1]) @ [Suc page..<Suc k]"
    using Suc.hyps(1) [OF n le Suc.prems(2) rest] by blast
  have step: "fetch_pages pages ep page acc tr =
      fetch_pages pages ep (Suc page) (acc @ json_body (pages page))
        (tr @ [GetPage ep page, Sleep 1])"
    using ns by (subst fetch_pages.simps) (simp add: stops_def)
  have u1: "[page..<k] = page # [Suc page..<k]" using lt by (simp add: upt_conv_Cons)
  have u2: "[page..<Suc k] = page # [Suc page..<Suc k]" using lt by (simp add: upt_conv_Cons)
  show ?case
    unfolding step u1 u2 using t by simp
qed

text \<open>A loop that returns has met a page that ends it.\<close>

lemma fetch_pages_returns_stop:
  assumes "fetch_pages pages ep page acc tr = Some y"
  shows "\<exists>j\<ge>page. stops (pages j)"
proof (rule fetch_pages.raw_induct
    [where P = "\<lambda>pages ep page acc tr y. \<exists>j\<ge>page. stops (pages j)", OF _ assms], goal_cases)
  case (1 f pages ep page acc tr y)
  show ?case
  proof (cases "stops (pages page)")
    case True
    then show ?thesis by blast
  next
    case False
    with 1(2) have "f pages ep (Suc page) (acc @ json_body (pages page))
                (tr @ [GetPage ep page, Sleep 1]) = Some y"
      by (simp add: stops_def)
    from 1(1) [OF this] obtain j where "Suc page \<le> j" "stops (pages j)" by blast
    then show ?thesis using Suc_leD by blast
  qed
qed

lemma first_stop:
  fixes page k :: nat
  assumes "page \<le> k" "stops (pages k)"
  obtains m where "page \<le> m" "m \<le> k" "stops (pages m)"
    "\<forall>j. page \<le> j \<and> j < m \<longrightarrow> \<not> stops (pages j)"
proof -
  define m where "m = (LEAST m. page \<le> m \<and> stops (pages m))"
  have ex: "page \<le> k \<and> stops (pages k)" using assms by simp
  have a: "page \<le> m \<and> stops (pages m)"
    unfolding m_def by (rule LeastI [of _ k]) (rule ex)
  have b: "m \<le> k" unfolding m_def by (rule Least_le) (rule ex)
  have c: "\<forall>j. page \<le> j \<and> j < m \<longrightarrow> \<not> stops (pages j)"
    unfolding m_def using not_less_Least by blast
  from a b c that show thesis by blast
qed

text \<open>The loop reads only the pages up to the first one that ends it, and only whether
  that one ends it.\<close>

lemma fetch_pages_agree:
  assumes "page \<le> k" "stops (p k)" "stops (q k)" "\<forall>j. j \<noteq> k \<longrightarrow> p j = q j"
  shows "fetch_pages p ep page acc tr = fetch_pages q ep page acc tr"
  using assms(1)
proof (induction "k - page" arbitrary: page acc tr)
  case 0
  then have "page = k" by simp
  with assms(2,3) show ?case
    by (subst fetch_pages.simps, subst (2) fetch_pages.simps) (auto simp: stops_def)
next
  case (Suc n)
  then have lt: "page < k" by simp
  then have eq: "p page = q page" using assms(4) by simp
  have n: "n = k - Suc page" using Suc.hyps(2) by simp
  have le: "Suc page \<le> k" using lt by simp
  note ih = Suc.hyps(1) [OF n le]
  show ?case
    by (subst fetch_pages.simps, subst (2) fetch_pages.simps) (simp add: eq ih)
qed

lemma get_listing_eq:
  "get_listing a ep = fetch_pages (list_page a ep) ep 1 [] []"
  by (cases ep) (simp_all add: get_listing_def get_followers_def get_following_def)

lemma get_listing_diverges:
  assumes "\<forall>k\<ge>1. \<not> stops (list_page a ep k)"
  shows "get_listing a ep = None"
proof (cases "get_listing a ep")
  case (Some y)
  then obtain j where "1 \<le> j" "stops (list_page a ep j)"
    unfolding get_listing_eq using fetch_pages_returns_stop by blast
  with assms show ?thesis by blast
qed simp

lemma get_listing_run:
  assumes "1 \<le> k" "stops (list_page a ep k)"
    "\<forall>j. 1 \<le> j \<and> j < k \<longrightarrow> \<not> stops (list_page a ep j)"
  shows "\<exists>t. get_listing a ep =
              Some (concat (map (\<lambda>j. json_body (list_page a ep j)) [1..<k]), t) \<and>
            fetches t = [1..<Suc k]"
  using fetch_pages_run [OF assms, of ep "[]" "[]"] by (simp add: get_listing_eq)

lemma get_listing_returns:
  assumes "1 \<le> k" "stops (list_page a ep k)"
  shows "get_listing a ep \<noteq> None"
proof -
  from first_stop [where pages = "list_page a ep", OF assms] obtain m where m: "1 \<le> m" "stops (list_page a ep m)"
    "\<forall>j. 1 \<le> j \<and> j < m \<longrightarrow> \<not> stops (list_page a ep j)"
    by blast
  from get_listing_run [OF this] show ?thesis by auto
qed

lemma with_page_fields [simp]:
  "user_page (with_page a ep k r) = user_page a"
  "put_following (with_page a ep k r) = put_following a"
  "delete_following (with_page a ep k r) = delete_following a"
  "list_page (with_page a ep k r) ep' page =
     (if ep' = ep \<and> page = k then r else list_page a ep' page)"
  by (simp_all add: with_page_def)

lemma follow_loop_with_page [simp]:
  "follow_loop (with_page a ep k r) cap delay us n = follow_loop a cap delay us n"
  by (induction us arbitrary: n)
     (auto simp: get_user_info_def follow_user_def split: sum.splits bool.splits option.splits)

lemma unfollow_loop_with_page [simp]:
  "unfollow_loop (with_page a ep k r) info cap delay us n = unfollow_loop a info cap delay us n"
  by (induction us arbitrary: n)
     (auto simp: unfollow_user_def split: sum.splits bool.splits)

lemma get_listing_with_page_other:
  "ep' \<noteq> ep \<Longrightarrow> get_listing (with_page a ep k r) ep' = get_listing a ep'"
proof -
  assume "ep' \<noteq> ep"
  then have "list_page (with_page a ep k r) ep' = list_page a ep'"
    by (intro ext) simp
  then show ?thesis by (simp add: get_listing_eq)
qed

lemma get_listing_with_empty_page:
  assumes "1 \<le> k" "status_code (list_page a ep k) \<noteq> 200"
  shows "get_listing (with_page a ep k (Response 200 [])) ep = get_listing a ep"
proof -
  have "fetch_pages (list_page (with_page a ep k (Response 200 [])) ep) ep 1 [] [] =
        fetch_pages (list_page a ep) ep 1 [] []"
    by (rule fetch_pages_agree [OF assms(1)]) (use assms(2) in \<open>simp_all add: stops_def\<close>)
  then show ?thesis by (simp add: get_listing_eq)
qed

lemma collections_with_empty_page:
  assumes "1 \<le> k" "status_code (list_page a ep k) \<noteq> 200"
  shows "get_followers (with_page a ep k (Response 200 [])) = get_followers a"
    and "get_following (with_page a ep k (Response 200 [])) = get_following a"
proof -
  have "get_listing (with_page a ep k (Response 200 [])) ep' = get_listing a ep'" for ep'
    using get_listing_with_empty_page [OF assms] get_listing_with_page_other [of ep' ep]
    by (cases "ep' = ep") simp_all
  from this [of Followers] this [of Following]
  show "get_followers (with_page a ep k (Response 200 [])) = get_followers a"
    and "get_following (with_page a ep k (Response 200 [])) = get_following a"
    by (simp_all add: get_listing_def)
qed

section \<open>Sample runs\<close>

lemma sample_collections:
  "get_followers sample_api =
     Some ([entry ''alice'', entry ''bigstar''],
           [GetPage Followers 1, Sleep 1, GetPage Followers 2])"
  "get_following sample_api =
     Some ([[(''login'', JStr ''GitHub-Docs''), (''type'', JStr ''Organization'')]],
           [GetPage Following 1, Sleep 1, GetPage Following 2])"
  by (simp_all add: get_followers_def get_following_def fetch_pages.simps sample_api_def)

lemma sample_usernames:
  "usernames [entry ''alice'', entry ''bigstar''] = Inr {JStr ''alice'', JStr ''bigstar''}"
  "usernames [[(''login'', JStr ''GitHub-Docs''), (''type'', JStr ''Organization'')]] =
     Inr {JStr ''GitHub-Docs''}"
  by (simp_all add: entry_def subscript_def)

text \<open>A phase whose collections return, whose comprehensions succeed and whose difference
  is not empty is the action loop run on the enumerated difference.\<close>

lemma follow_back_followers_eq:
  assumes "get_followers a = Some (fs, t1)" "get_following a = Some (gs, t2)"
    "usernames fs = Inr F" "usernames gs = Inr G" "to_follow_back F G \<noteq> {}"
  shows "follow_back_followers a to_list cap delay =
           Some (after (t1 @ t2) (follow_candidates a cap delay (to_list (to_follow_back F G))))"
  using assms by (simp add: follow_back_followers_def)

lemma cleanup_non_followers_eq:
  assumes "get_followers a = Some (fs, t1)" "get_following a = Some (gs, t2)"
    "usernames fs = Inr F" "usernames gs = Inr G" "non_followers F G \<noteq> {}"
    "following_info_of gs Map.empty = Inr info"
  shows "cleanup_non_followers a to_list cap delay =
           Some (after (t1 @ t2)
                  (unfollow_candidates a info cap delay (to_list (non_followers F G))))"
  using assms by (simp add: cleanup_non_followers_def)

lemma sample_candidates:
  "to_follow_back {JStr ''alice'', JStr ''bigstar''} {JStr ''GitHub-Docs''} \<noteq> {}"
  "sample_to_list (to_follow_back {JStr ''alice'', JStr ''bigstar''} {JStr ''GitHub-Docs''}) =
     [JStr ''alice'', JStr ''bigstar'']"
  "non_followers {JStr ''alice'', JStr ''bigstar''} {JStr ''GitHub-Docs''} \<noteq> {}"
  "sample_to_list (non_followers {JStr ''alice'', JStr ''bigstar''} {JStr ''GitHub-Docs''}) =
     [JStr ''GitHub-Docs'']"
  "non_followers {} {JStr ''GitHub-Docs''} \<noteq> {}"
  "sample_to_list (non_followers {} {JStr ''GitHub-Docs''}) = [JStr ''GitHub-Docs'']"
  by (simp_all add: to_follow_back_def non_followers_def sample_to_list_def)

lemma sample_following_info:
  "following_info_of [[(''login'', JStr ''GitHub-Docs''), (''type'', JStr ''Organization'')]]
     Map.empty = Inr sample_info"
  by (simp add: subscript_def sample_info_def)

lemma sample_unfollow_run:
  "unfollow_candidates sample_api sample_info 20 5 [JStr ''GitHub-Docs''] =
     \<lparr>tally = 0,
      calls = [ShouldSkip [(''login'', JStr ''GitHub-Docs''), (''type'', JStr ''Organization'')]],
      raised = None\<rparr>"
  by (simp add: unfollow_candidates_def slice_to_def sample_info_def cached_info_def
      sample_filter after_def stop_with_def)

lemma sample_follow_back:
  "follow_back_followers sample_api sample_to_list 15 5 =
     Some \<lparr>tally = 1,
           calls = [GetPage Followers 1, Sleep 1, GetPage Followers 2,
                    GetPage Following 1, Sleep 1, GetPage Following 2,
                    GetUserInfo (JStr ''alice''), FollowUser (JStr ''alice''), Sleep 5,
                    GetUserInfo (JStr ''bigstar''),
                    ShouldSkip [(''login'', JStr ''bigstar''), (''followers'', JInt 20000)]],
           raised = None\<rparr>"
  unfolding follow_back_followers_eq
    [OF sample_collections sample_usernames sample_candidates(1)]
    sample_candidates(2) sample_follow_run
  by (simp add: after_def)


section \<open>The claims\<close>

text \<open>
  C1, as stated, fails: in the follow-back phase of \<open>sample_api\<close> the profile lookup of
  \<open>alice\<close> returns no profile, and \<open>follow_user\<close> is called for her and succeeds.
\<close>

theorem unresolved_profile_counterexample:
  "get_user_info sample_api (JStr ''alice'') = None \<and>
   follow_back_followers sample_api sample_to_list 15 5 =
     Some \<lparr>tally = 1,
           calls = [GetPage Followers 1, Sleep 1, GetPage Followers 2,
                    GetPage Following 1, Sleep 1, GetPage Following 2,
                    GetUserInfo (JStr ''alice''), FollowUser (JStr ''alice''), Sleep 5,
                    GetUserInfo (JStr ''bigstar''),
                    ShouldSkip [(''login'', JStr ''bigstar''), (''followers'', JInt 20000)]],
           raised = None\<rparr>"
  using sample_lookups(1) sample_follow_back by simp

text \<open>
  C1, amended. In the follow-back loop, whenever the profile lookup of a candidate returns
  no profile, or an empty profile, the very next call is \<open>follow_user\<close> for that
  candidate: the filter is not consulted and the candidate is not skipped. When that call
  succeeds, the pause of \<open>delay\<close> seconds follows it.
\<close>

theorem unresolved_profile_is_followed:
  assumes "calls (follow_candidates a cap delay cs) = pre @ GetUserInfo u # post"
    and "get_user_info a u = None \<or> get_user_info a u = Some []"
  shows "\<exists>post'. post = FollowUser u # post' \<and>
           (follow_user a u \<longrightarrow> (\<exists>post''. post' = Sleep delay # post''))"
proof -
  have "failed_lookup_followed a delay (calls (follow_candidates a cap delay cs))"
    unfolding follow_candidates_def by (rule follow_loop_failed_lookup)
  from failed_lookup_followedD [OF this assms]
  have 1: "take 1 post = [FollowUser u]"
    and 2: "follow_user a u \<longrightarrow> take 2 post = [FollowUser u, Sleep delay]"
    by simp_all
  from 1 obtain post' where p: "post = FollowUser u # post'"
    by (cases post) simp_all
  have "\<exists>post''. post' = Sleep delay # post''" if "follow_user a u"
    using 2 that p by (cases post') simp_all
  with p show ?thesis by blast
qed

lemma empty_profile_run:
  "get_user_info empty_profile_api (JStr ''carol'') = Some []"
  "follow_user empty_profile_api (JStr ''carol'')"
  "follow_candidates empty_profile_api 15 5 [JStr ''carol''] =
     \<lparr>tally = 1,
      calls = [GetUserInfo (JStr ''carol''), FollowUser (JStr ''carol''), Sleep 5],
      raised = None\<rparr>"
  by (simp_all add: follow_candidates_def slice_to_def get_user_info_def follow_user_def
      empty_profile_api_def sample_api_def after_def stop_with_def)

theorem unresolved_profile_is_followed_witness:
  "calls (follow_candidates sample_api 15 5 [JStr ''alice'', JStr ''bigstar'']) =
     [] @ GetUserInfo (JStr ''alice'') #
       [FollowUser (JStr ''alice''), Sleep 5, GetUserInfo (JStr ''bigstar''),
        ShouldSkip [(''login'', JStr ''bigstar''), (''followers'', JInt 20000)]]
   \<and> get_user_info sample_api (JStr ''alice'') = None
   \<and> follow_user sample_api (JStr ''alice'')
   \<and> (\<exists>post''. [FollowUser (JStr ''alice''), Sleep 5, GetUserInfo (JStr ''bigstar''),
                 ShouldSkip [(''login'', JStr ''bigstar''), (''followers'', JInt 20000)]] =
                FollowUser (JStr ''alice'') # Sleep 5 # post'')
   \<and> calls (follow_candidates empty_profile_api 15 5 [JStr ''carol'']) =
       [] @ GetUserInfo (JStr ''carol'') # [FollowUser (JStr ''carol''), Sleep 5]
   \<and> get_user_info empty_profile_api (JStr ''carol'') = Some []
   \<and> follow_user empty_profile_api (JStr ''carol'')
   \<and> (\<exists>post''. [FollowUser (JStr ''carol''), Sleep 5] =
                FollowUser (JStr ''carol'') # Sleep 5 # post'')"
proof -
  have c1: "calls (follow_candidates sample_api 15 5 [JStr ''alice'', JStr ''bigstar'']) =
     [] @ GetUserInfo (JStr ''alice'') #
       [FollowUser (JStr ''alice''), Sleep 5, GetUserInfo (JStr ''bigstar''),
        ShouldSkip [(''login'', JStr ''bigstar''), (''followers'', JInt 20000)]]"
    by (simp add: sample_follow_run)
  have n1: "get_user_info sample_api (JStr ''alice'') = None \<or>
            get_user_info sample_api (JStr ''alice'') = Some []"
    by (simp add: sample_lookups)
  have f1: "follow_user sample_api (JStr ''alice'')"
    by (rule sample_lookups)
  from unresolved_profile_is_followed [OF c1 n1] f1
  have r1: "\<exists>post''. [FollowUser (JStr ''alice''), Sleep 5, GetUserInfo (JStr ''bigstar''),
                 ShouldSkip [(''login'', JStr ''bigstar''), (''followers'', JInt 20000)]] =
                FollowUser (JStr ''alice'') # Sleep 5 # post''"
    by auto
  have c2: "calls (follow_candidates empty_profile_api 15 5 [JStr ''carol'']) =
       [] @ GetUserInfo (JStr ''carol'') # [FollowUser (JStr ''carol''), Sleep 5]"
    by (simp add: empty_profile_run)
  have n2: "get_user_info empty_profile_api (JStr ''carol'') = None \<or>
            get_user_info empty_profile_api (JStr ''carol'') = Some []"
    by (simp add: empty_profile_run)
  have f2: "follow_user empty_profile_api (JStr ''carol'')"
    by (rule empty_profile_run)
  from unresolved_profile_is_followed [OF c2 n2] f2
  have r2: "\<exists>post''. [FollowUser (JStr ''carol''), Sleep 5] =
                FollowUser (JStr ''carol'') # Sleep 5 # post''"
    by auto
  from c1 sample_lookups(1) f1 r1 c2 empty_profile_run(1) f2 r2 show ?thesis by blast
qed





text \<open>
  C3, as stated, fails: the second page of \<open>failing_api\<close> answers 500, and
  \<open>get_followers\<close> returns the first page as an ordinary listing, the very value it
  returns when the second page is an empty success.
\<close>

theorem failed_fetch_counterexample:
  "status_code (list_page failing_api Followers 2) = 500 \<and>
   get_followers failing_api =
     Some ([entry ''alice''], [GetPage Followers 1, Sleep 1, GetPage Followers 2]) \<and>
   get_followers (with_page failing_api Followers 2 (Response 200 [])) =
     Some ([entry ''alice''], [GetPage Followers 1, Sleep 1, GetPage Followers 2])"
  by (simp add: get_followers_def fetch_pages.simps failing_api_def with_page_def)

text \<open>
  C3, amended. When the fetch of page \<open>k\<close> of a collection is not a success, the
  collection still returns a listing, and it is the listing (and the trace) of the run in
  which page \<open>k\<close> is an empty success; if no earlier page ends the loop, it is the
  concatenation of the pages before \<open>k\<close>. Both phases and the statistics behave as in
  that run: no failure reaches a caller.
\<close>

theorem failed_fetch_returns_partial_listing:
  assumes "1 \<le> k" and "status_code (list_page a ep k) \<noteq> 200"
  shows "get_listing a ep \<noteq> None
       \<and> get_listing a ep = get_listing (with_page a ep k (Response 200 [])) ep
       \<and> ((\<forall>j. 1 \<le> j \<and> j < k \<longrightarrow> \<not> stops (list_page a ep j)) \<longrightarrow>
            map_option fst (get_listing a ep) =
              Some (concat (map (\<lambda>j. json_body (list_page a ep j)) [1..<k])))
       \<and> follow_back_followers a to_list cap delay =
           follow_back_followers (with_page a ep k (Response 200 [])) to_list cap delay
       \<and> cleanup_non_followers a to_list cap delay =
           cleanup_non_followers (with_page a ep k (Response 200 [])) to_list cap delay
       \<and> get_statistics a = get_statistics (with_page a ep k (Response 200 []))"
proof -
  have st: "stops (list_page a ep k)" using assms(2) by (simp add: stops_def)
  have 1: "get_listing a ep \<noteq> None"
    by (rule get_listing_returns [OF assms(1) st])
  have 2: "get_listing a ep = get_listing (with_page a ep k (Response 200 [])) ep"
    by (rule get_listing_with_empty_page [OF assms, symmetric])
  have 3: "map_option fst (get_listing a ep) =
              Some (concat (map (\<lambda>j. json_body (list_page a ep j)) [1..<k]))"
    if "\<forall>j. 1 \<le> j \<and> j < k \<longrightarrow> \<not> stops (list_page a ep j)"
    using get_listing_run [OF assms(1) st that] by auto
  note c = collections_with_empty_page [OF assms]
  have 4: "follow_back_followers a to_list cap delay =
           follow_back_followers (with_page a ep k (Response 200 [])) to_list cap delay"
    unfolding follow_back_followers_def c follow_candidates_def follow_loop_with_page
    by (rule refl)
  have 5: "cleanup_non_followers a to_list cap delay =
           cleanup_non_followers (with_page a ep k (Response 200 [])) to_list cap delay"
    unfolding cleanup_non_followers_def c unfollow_candidates_def unfollow_loop_with_page
    by (rule refl)
  have 6: "get_statistics a = get_statistics (with_page a ep k (Response 200 []))"
    unfolding get_statistics_def c by (rule refl)
  from 1 2 3 4 5 6 show ?thesis by blast
qed

lemma failing_cleanup:
  "cleanup_non_followers (with_page sample_api Followers 1 (Response 200 []))
     sample_to_list 20 5 =
     Some \<lparr>tally = 0,
           calls = [GetPage Followers 1,
                    GetPage Following 1, Sleep 1, GetPage Following 2,
                    ShouldSkip [(''login'', JStr ''GitHub-Docs''),
                                (''type'', JStr ''Organization'')]],
           raised = None\<rparr>"
proof -
  have f: "get_followers (with_page sample_api Followers 1 (Response 200 [])) =
             Some ([], [GetPage Followers 1])"
    by (simp add: get_followers_def fetch_pages.simps)
  have g: "get_following (with_page sample_api Followers 1 (Response 200 [])) =
     Some ([[(''login'', JStr ''GitHub-Docs''), (''type'', JStr ''Organization'')]],
           [GetPage Following 1, Sleep 1, GetPage Following 2])"
    by (simp add: get_following_def fetch_pages.simps sample_api_def)
  have u: "unfollow_candidates (with_page sample_api Followers 1 (Response 200 []))
             sample_info 20 5 [JStr ''GitHub-Docs''] =
           unfollow_candidates sample_api sample_info 20 5 [JStr ''GitHub-Docs'']"
    by (simp add: unfollow_candidates_def)
  have e: "usernames [] = Inr {}" by simp
  show ?thesis
    unfolding cleanup_non_followers_eq
      [OF f g e sample_usernames(2) sample_candidates(5) sample_following_info]
      sample_candidates(6) u sample_unfollow_run
    by (simp add: after_def)
qed

theorem failed_fetch_returns_partial_listing_witness:
  "(1::nat) \<le> 1
   \<and> status_code (list_page (with_page sample_api Followers 1 (Response 503 [])) Followers 1)
       \<noteq> 200
   \<and> get_listing (with_page sample_api Followers 1 (Response 503 [])) Followers \<noteq> None
   \<and> cleanup_non_followers (with_page sample_api Followers 1 (Response 503 []))
       sample_to_list 20 5 =
     Some \<lparr>tally = 0,
           calls = [GetPage Followers 1,
                    GetPage Following 1, Sleep 1, GetPage Following 2,
                    ShouldSkip [(''login'', JStr ''GitHub-Docs''),
                                (''type'', JStr ''Organization'')]],
           raised = None\<rparr>"
proof -
  let ?a = "with_page sample_api Followers 1 (Response 503 [])"
  have k: "(1::nat) \<le> 1" by simp
  have s: "status_code (list_page ?a Followers 1) \<noteq> 200" by simp
  have e: "with_page ?a Followers 1 (Response 200 []) =
           with_page sample_api Followers 1 (Response 200 [])"
    by (simp add: with_page_def fun_eq_iff)
  from failed_fetch_returns_partial_listing [OF k s, of sample_to_list 20 5]
  have "get_listing ?a Followers \<noteq> None"
    and "cleanup_non_followers ?a sample_to_list 20 5 =
         cleanup_non_followers (with_page ?a Followers 1 (Response 200 [])) sample_to_list 20 5"
    by blast+
  with k s show ?thesis
    unfolding e failing_cleanup by blast
qed

text \<open>
  C4. The three sets computed by the phases and the statistics are the two differences
  and the intersection; together they cover the union and no two of them overlap.
\<close>

theorem reconciliation_partition:
  "to_follow_back F G = F - G
   \<and> non_followers F G = G - F
   \<and> mutual_follows F G = F \<inter> G
   \<and> to_follow_back F G \<union> non_followers F G \<union> mutual_follows F G = F \<union> G
   \<and> to_follow_back F G \<inter> non_followers F G = {}
   \<and> to_follow_back F G \<inter> mutual_follows F G = {}
   \<and> non_followers F G \<inter> mutual_follows F G = {}"
  unfolding to_follow_back_def non_followers_def mutual_follows_def by blast

text \<open>
  C6, as stated, fails: the listing of \<open>endless_api\<close> never returns an empty page, and
  \<open>get_followers\<close> does not return.
\<close>

theorem page_ceiling_counterexample:
  "get_followers endless_api = None"
proof -
  have "\<forall>k\<ge>1. \<not> stops (list_page endless_api Followers k)"
    by (simp add: endless_api_def stops_def)
  from get_listing_diverges [OF this] show ?thesis
    by (simp add: get_listing_def)
qed

text \<open>
  C6, amended. There is no page ceiling. A collection fetches the pages \<open>1, 2, ...\<close> in
  turn up to the first page that is empty or not a success, and returns after that
  fetch; if no page is empty or a failure, it does not return.
\<close>

theorem page_loop_ends_at_first_stop:
  "((\<forall>k\<ge>1. \<not> stops (list_page a ep k)) \<longrightarrow> get_listing a ep = None)
   \<and> (1 \<le> k \<and> stops (list_page a ep k) \<and>
        (\<forall>j. 1 \<le> j \<and> j < k \<longrightarrow> \<not> stops (list_page a ep j)) \<longrightarrow>
        (\<exists>r. get_listing a ep = Some r \<and> fetches (snd r) = [1..<Suc k]))"
proof -
  have "\<exists>r. get_listing a ep = Some r \<and> fetches (snd r) = [1..<Suc k]"
    if "1 \<le> k" "stops (list_page a ep k)"
      "\<forall>j. 1 \<le> j \<and> j < k \<longrightarrow> \<not> stops (list_page a ep j)"
    using get_listing_run [OF that] by auto
  then show ?thesis
    using get_listing_diverges by blast
qed

theorem page_loop_ends_at_first_stop_witness:
  "get_listing endless_api Following = None
   \<and> (1::nat) \<le> 2
   \<and> stops (list_page sample_api Followers 2)
   \<and> \<not> stops (list_page sample_api Followers 1)
   \<and> (\<exists>r. get_listing sample_api Followers = Some r \<and> fetches (snd r) = [1..<Suc 2])"
proof -
  have a: "\<forall>k\<ge>1. \<not> stops (list_page endless_api Following k)"
    by (simp add: endless_api_def stops_def)
  have b: "(1::nat) \<le> 2" by simp
  have c: "stops (list_page sample_api Followers 2)"
    by (simp add: sample_api_def stops_def)
  have d: "\<forall>j. 1 \<le> j \<and> j < 2 \<longrightarrow> \<not> stops (list_page sample_api Followers j)"
  proof (intro allI impI)
    fix j :: nat
    assume "1 \<le> j \<and> j < 2"
    then have "j = 1" by simp
    then show "\<not> stops (list_page sample_api Followers j)"
      by (simp add: sample_api_def stops_def)
  qed
  from page_loop_ends_at_first_stop [of endless_api Following 0] a
  have e: "get_listing endless_api Following = None" by blast
  from page_loop_ends_at_first_stop [of sample_api Followers 2] b c d
  have f: "\<exists>r. get_listing sample_api Followers = Some r \<and> fetches (snd r) = [1..<Suc 2]"
    by blast
  have g: "\<not> stops (list_page sample_api Followers 1)"
    by (simp add: sample_api_def stops_def)
  from e b c g f show ?thesis by blast
qed






text \<open>
  C10, as stated, fails: with the follower count absent, an organisation whose login
  contains \<open>github\<close> is skipped; and with the identifier absent and more than 10000
  followers the filter raises KeyError while building its log line.
\<close>

theorem absent_fields_counterexample:
  "should_skip_user [(''type'', JStr ''Organization''), (''login'', JStr ''github'')] = Inr True
   \<and> should_skip_user [(''followers'', JInt 10001)] = Inl KeyError"
  by (simp add: should_skip_user_def dict_get_def subscript_def)

text \<open>
  C10, amended. A mapping with neither a follower count nor an identifier is never
  skipped, and the filter does not raise on it: the count is read as 0 and the identifier
  as empty. This covers the empty mapping that the cleanup phase passes for a candidate
  without a cached record. With only the follower count absent it is read as 0 and the
  organisation rule decides; with only the identifier absent and an integer count of at
  most 10000 the identifier is read as empty and the profile is not skipped.
\<close>

theorem absent_fields_defaults:
  "(map_of d ''followers'' = None \<and> map_of d ''login'' = None \<longrightarrow>
      should_skip_user d = Inr False)
   \<and> (following_info username = None \<longrightarrow>
        cached_info following_info username = [] \<and>
        should_skip_user (cached_info following_info username) = Inr False)
   \<and> (map_of d ''followers'' = None \<and> map_of d ''login'' = Some (JStr l) \<longrightarrow>
        should_skip_user d =
          Inr (map_of d ''type'' = Some (JStr ''Organization'') \<and>
               (\<exists>pre post. map lower_char l = pre @ ''github'' @ post)))
   \<and> (map_of d ''login'' = None \<and> map_of d ''followers'' = Some (JInt n) \<and> n \<le> 10000 \<longrightarrow>
        should_skip_user d = Inr False)"
proof -
  have ty: "(dict_get d ''type'' JNull = JStr ''Organization'') =
            (map_of d ''type'' = Some (JStr ''Organization''))"
    by (cases "map_of d ''type''") (simp_all add: dict_get_def)
  have 1: "should_skip_user d = Inr False"
    if "map_of d ''followers'' = None \<and> map_of d ''login'' = None"
    using that by (simp add: should_skip_user_def dict_get_def)
  have 2: "cached_info following_info username = [] \<and>
        should_skip_user (cached_info following_info username) = Inr False"
    if "following_info username = None"
    using that by (simp add: cached_info_def should_skip_user_def dict_get_def)
  have 3: "should_skip_user d =
          Inr (map_of d ''type'' = Some (JStr ''Organization'') \<and>
               (\<exists>pre post. map lower_char l = pre @ ''github'' @ post))"
    if h: "map_of d ''followers'' = None \<and> map_of d ''login'' = Some (JStr l)"
  proof -
    have fo: "dict_get d ''followers'' (JInt 0) = JInt 0"
      using h by (simp add: dict_get_def)
    have lg: "dict_get d ''login'' (JStr []) = JStr l"
      using h by (simp add: dict_get_def)
    have sl: "subscript d ''login'' = Inr (JStr l)"
      using h by (simp add: subscript_def)
    have "should_skip_user d =
          Inr (map_of d ''type'' = Some (JStr ''Organization'') \<and>
               py_in ''github'' (map lower_char l))"
      unfolding should_skip_user_def ty lg fo sl by simp
    then show ?thesis unfolding py_in_decompose .
  qed
  have 4: "should_skip_user d = Inr False"
    if h: "map_of d ''login'' = None \<and> map_of d ''followers'' = Some (JInt n) \<and> n \<le> 10000"
    using h by (simp add: should_skip_user_def dict_get_def)
  from 1 2 3 4 show ?thesis by blast
qed

theorem absent_fields_defaults_witness:
  "should_skip_user [(''type'', JStr ''Organization'')] = Inr False
   \<and> should_skip_user (cached_info sample_info (JStr ''alice'')) = Inr False
   \<and> should_skip_user [(''login'', JStr ''GitHub''), (''type'', JStr ''Organization'')] =
       Inr (map_of [(''login'', JStr ''GitHub''), (''type'', JStr ''Organization'')] ''type'' =
              Some (JStr ''Organization'') \<and>
            (\<exists>pre post. map lower_char ''GitHub'' = pre @ ''github'' @ post))
   \<and> should_skip_user [(''followers'', JInt 10000), (''type'', JStr ''Organization'')] =
       Inr False"
proof -
  have a: "map_of [(''type'', JStr ''Organization'')] ''followers'' = None \<and>
           map_of [(''type'', JStr ''Organization'')] ''login'' = None"
    by simp
  have b: "sample_info (JStr ''alice'') = None"
    by (simp add: sample_info_def)
  have c: "map_of [(''login'', JStr ''GitHub''), (''type'', JStr ''Organization'')]
             ''followers'' = None \<and>
           map_of [(''login'', JStr ''GitHub''), (''type'', JStr ''Organization'')]
             ''login'' = Some (JStr ''GitHub'')"
    by simp
  have d: "map_of [(''followers'', JInt 10000), (''type'', JStr ''Organization'')]
             ''login'' = None \<and>
           map_of [(''followers'', JInt 10000), (''type'', JStr ''Organization'')]
             ''followers'' = Some (JInt 10000) \<and> (10000::int) \<le> 10000"
    by simp
  from absent_fields_defaults [of "[(''type'', JStr ''Organization'')]" sample_info
      "JStr ''alice''" "''GitHub''" 10000] a b
  have 1: "should_skip_user [(''type'', JStr ''Organization'')] = Inr False"
    and 2: "should_skip_user (cached_info sample_info (JStr ''alice'')) = Inr False"
    by blast+
  from absent_fields_defaults
    [of "[(''login'', JStr ''GitHub''), (''type'', JStr ''Organization'')]" sample_info
      "JStr ''alice''" "''GitHub''" 10000] c
  have 3: "should_skip_user [(''login'', JStr ''GitHub''), (''type'', JStr ''Organization'')] =
       Inr (map_of [(''login'', JStr ''GitHub''), (''type'', JStr ''Organization'')] ''type'' =
              Some (JStr ''Organization'') \<and>
            (\<exists>pre post. map lower_char ''GitHub'' = pre @ ''github'' @ post))"
    by blast
  from absent_fields_defaults
    [of "[(''followers'', JInt 10000), (''type'', JStr ''Organization'')]" sample_info
      "JStr ''alice''" "''GitHub''" 10000] d
  have 4: "should_skip_user [(''followers'', JInt 10000), (''type'', JStr ''Organization'')] =
       Inr False"
    by blast
  from 1 2 3 4 show ?thesis by blast
qed

end
